theory Spec2Isabelle
  imports Main "HOL-Library.Sublist"
begin

section \<open>Python string primitives used by the bisection code\<close>

text \<open>
  Python byte strings are modelled as \<^typ>\<open>string\<close>. The helpers below follow the
  semantics of \<^verbatim>\<open>str.split(sep)\<close> with an explicit one-character separator (the result
  always has at least one field), \<^verbatim>\<open>sep.join(xs)\<close>, \<^verbatim>\<open>str.find(c)\<close> (index or -1),
  \<^verbatim>\<open>str.startswith\<close> (\<^const>\<open>prefix\<close>) and the substring test \<^verbatim>\<open>a in b\<close>.
\<close>

definition newline :: char where
  "newline = CHR 0x0A"

fun split_on :: "char \<Rightarrow> string \<Rightarrow> string list" where
  "split_on c [] = [[]]"
| "split_on c (x # xs) =
     (if x = c then [] # split_on c xs
      else (case split_on c xs of
              [] \<Rightarrow> [[x]]
            | field # fields \<Rightarrow> (x # field) # fields))"

fun join_with :: "string \<Rightarrow> string list \<Rightarrow> string" where
  "join_with sep [] = []"
| "join_with sep [x] = x"
| "join_with sep (x # y # ys) = x @ sep @ join_with sep (y # ys)"

fun str_find :: "char \<Rightarrow> string \<Rightarrow> int" where
  "str_find c [] = -1"
| "str_find c (x # xs) =
     (if x = c then 0 else (let r = str_find c xs in if r = -1 then -1 else r + 1))"

fun str_in :: "string \<Rightarrow> string \<Rightarrow> bool" where
  "str_in sub [] = (sub = [])"
| "str_in sub (x # xs) = (prefix sub (x # xs) \<or> str_in sub xs)"

section \<open>util/hgCmds.py: getCsetHashFromBisectMsg\<close>

text \<open>
  The regular expression \<^verbatim>\<open>(^|.* )(\d+):(\w{12}).*\<close> is applied with \<^verbatim>\<open>re.match\<close>, that is
  anchored at the start of the string. On byte strings without flags, \<^verbatim>\<open>\d\<close> is an ASCII
  digit, \<^verbatim>\<open>\w\<close> is an ASCII letter, digit or underscore, and \<^verbatim>\<open>.\<close> is any character
  except a newline.

  \<open>token_at\<close> matches \<^verbatim>\<open>(\d+):(\w{12}).*\<close> at the head of its argument and yields group 3.
  The digits cannot contain the colon, so the only way for \<^verbatim>\<open>\d+\<close> to be followed by the
  colon is to take the maximal run of digits; the trailing \<^verbatim>\<open>.*\<close> always succeeds.

  \<open>search_token\<close> is the second alternative \<^verbatim>\<open>.* \<close> of group 1: the greedy \<^verbatim>\<open>.*\<close> is
  backtracked from the longest newline-free prefix, so the last space that is followed by
  a token wins. The first alternative \<^verbatim>\<open>^\<close> is tried before it.
\<close>

definition is_digit :: "char \<Rightarrow> bool" where
  "is_digit c = (c \<in> set ''0123456789'')"

definition is_word :: "char \<Rightarrow> bool" where
  "is_word c = (c \<in> set ''abcdefghijklmnopqrstuvwxyzABCDEFGHIJKLMNOPQRSTUVWXYZ0123456789_'')"

definition token_at :: "string \<Rightarrow> string option" where
  "token_at s =
     (let ds = takeWhile is_digit s; r = dropWhile is_digit s
      in if ds \<noteq> [] \<and> r \<noteq> [] \<and> hd r = CHR '':'' \<and> 12 \<le> length (tl r)
            \<and> list_all is_word (take 12 (tl r))
         then Some (take 12 (tl r)) else None)"

fun search_token :: "string \<Rightarrow> string option" where
  "search_token [] = None"
| "search_token (c # cs) =
     (if c = newline then None
      else (case search_token cs of
              Some h \<Rightarrow> Some h
            | None \<Rightarrow> if c = CHR '' '' then token_at cs else None))"

definition getCsetHashFromBisectMsg :: "string \<Rightarrow> string option" where
  "getCsetHashFromBisectMsg str =
     (case token_at str of Some h \<Rightarrow> Some h | None \<Rightarrow> search_token str)"

section \<open>core/bisect.py: sanitizeCsetMsg\<close>

text \<open>
  The loop over \<^verbatim>\<open>msgList\<close> rebinds \<^verbatim>\<open>line\<close> in an \<^verbatim>\<open>if\<close>/\<^verbatim>\<open>elif\<close> chain and appends
  it to \<^verbatim>\<open>sanitizedMsgList\<close>; the model keeps the accumulator.
\<close>

definition is_email_line :: "string \<Rightarrow> bool" where
  "is_email_line line =
     (str_find CHR ''<'' line \<noteq> -1 \<and> str_find CHR ''@'' line \<noteq> -1
      \<and> str_find CHR ''>'' line \<noteq> -1)"

definition cset_url :: string where
  "cset_url = ''changeset:   https://hg.mozilla.org/mozilla-central/rev/''"

fun sanitize_loop :: "string \<Rightarrow> string list \<Rightarrow> string list \<Rightarrow> string list" where
  "sanitize_loop repo [] sanitizedMsgList = sanitizedMsgList"
| "sanitize_loop repo (line # msgList) sanitizedMsgList =
     (let line' =
        (if is_email_line line
           then join_with '' '' (butlast (split_on CHR '' '' line))
         else if prefix ''changeset:'' line \<and> str_in ''mozilla-central'' repo
           then cset_url @ last (split_on CHR '':'' line)
         else line)
      in sanitize_loop repo msgList (sanitizedMsgList @ [line']))"

definition sanitizeCsetMsg :: "string \<Rightarrow> string \<Rightarrow> string" where
  "sanitizeCsetMsg msg repo =
     join_with [newline] (sanitize_loop repo (split_on newline msg) [])"

text \<open>
  The two rewrites named on their own, and the rule a line is subject to, as the
  description of the sanitizer words them: the email rule first, the changeset rule
  only for a line the email rule does not take, in a repository whose path names
  mozilla-central.
\<close>

definition strip_last_token :: "string \<Rightarrow> string" where
  "strip_last_token line = join_with '' '' (butlast (split_on CHR '' '' line))"

definition to_cset_url :: "string \<Rightarrow> string" where
  "to_cset_url line = cset_url @ last (split_on CHR '':'' line)"

datatype rewrite = EmailRule | ChangesetRule | NoRewrite

definition rule_for :: "string \<Rightarrow> string \<Rightarrow> rewrite" where
  "rule_for repo line =
     (if is_email_line line then EmailRule
      else if prefix ''changeset:'' line \<and> str_in ''mozilla-central'' repo then ChangesetRule
      else NoRewrite)"

fun apply_rule :: "rewrite \<Rightarrow> string \<Rightarrow> string" where
  "apply_rule EmailRule line = strip_last_token line"
| "apply_rule ChangesetRule line = to_cset_url line"
| "apply_rule NoRewrite line = line"

section \<open>The world outside the process\<close>

text \<open>
  Mercurial, the evaluator and the file system are outside the program. The model takes
  their answers from an environment and records what the program did to them as a list
  of events, oldest first.
  \<^item> \<open>hg_returncode\<close>: the exit status of a command run by \<^verbatim>\<open>subprocess.check_call\<close>,
    which raises \<^verbatim>\<open>CalledProcessError\<close> when it is not zero;
  \<^item> \<open>hg_stdout\<close>: the first component of \<^verbatim>\<open>sps.captureStdout\<close>;
  \<^item> \<open>evaluate_testcase\<close>: the result of \<^verbatim>\<open>self.evaluate_testcase(rev)\<close>, \<^verbatim>\<open>None\<close> or a
    string;
  \<^item> \<open>evaluator\<close>: the label \<^verbatim>\<open>self.evaluator(rev)\<close> returns, a pair of strings; the
    evaluator is an arbitrary callable, so its answer may depend on how many calls
    came before (the first argument);
  \<^item> \<open>getRepoHashAndId\<close>: the changeset hash \<^verbatim>\<open>hgCmds.getRepoHashAndId(...)[0]\<close> resolves
    a revision name to, or the exception it raises.
  Logging and printing are not modelled.
\<close>

type_synonym label = "string \<times> string"

datatype error =
    CalledProcessError "string list"
  | NameError string
  | AssertionError
  | KeyError string
  | IndexError
  | Exception string

datatype event =
    Hg "string list"
  | Evaluate string
  | DestroyPyc string

record env =
  hg_returncode :: "string list \<Rightarrow> int"
  hg_stdout :: "string list \<Rightarrow> string"
  evaluate_testcase :: "string \<Rightarrow> string option"
  evaluator :: "nat \<Rightarrow> string \<Rightarrow> label"
  getRepoHashAndId :: "string \<Rightarrow> string \<Rightarrow> error + string"

record world =
  events :: "event list"
  evals :: nat

definition check_call :: "env \<Rightarrow> string list \<Rightarrow> world \<Rightarrow> (error + unit) \<times> world" where
  "check_call e cmd w =
     (let w' = w\<lparr>events := events w @ [Hg cmd]\<rparr>
      in if hg_returncode e cmd = 0 then (Inr (), w') else (Inl (CalledProcessError cmd), w'))"

definition captureStdout :: "env \<Rightarrow> string list \<Rightarrow> world \<Rightarrow> string \<times> world" where
  "captureStdout e cmd w = (hg_stdout e cmd, w\<lparr>events := events w @ [Hg cmd]\<rparr>)"

definition call_evaluator :: "env \<Rightarrow> string \<Rightarrow> world \<Rightarrow> label \<times> world" where
  "call_evaluator e revision w =
     (evaluator e (evals w) revision,
      w\<lparr>events := events w @ [Evaluate revision], evals := Suc (evals w)\<rparr>)"

section \<open>util/hgCmds.py: destroyPyc, findCommonAncestor, isAncestor\<close>

definition destroyPyc :: "string \<Rightarrow> world \<Rightarrow> world" where
  "destroyPyc repoDir w = w\<lparr>events := events w @ [DestroyPyc repoDir]\<rparr>"

definition findCommonAncestor :: "env \<Rightarrow> string \<Rightarrow> string \<Rightarrow> string \<Rightarrow> world \<Rightarrow> string \<times> world" where
  "findCommonAncestor e repoDir a b w =
     captureStdout e [''hg'', ''-R'', repoDir, ''log'', ''-r'',
                      ''ancestor('' @ a @ '','' @ b @ '')'', ''--template={node|short}''] w"

definition isAncestor :: "env \<Rightarrow> string \<Rightarrow> string \<Rightarrow> string \<Rightarrow> world \<Rightarrow> bool \<times> world" where
  "isAncestor e repoDir a b w =
     (let (ca, w') = findCommonAncestor e repoDir a b w in (ca = a, w'))"

section \<open>core/bisect.py: class Bisector\<close>

definition MAX_ITERATIONS :: nat where
  "MAX_ITERATIONS = 100"

record bisector =
  repo_dir :: string
  start_rev :: string
  end_rev :: string
  skip_revs :: "string option"
  baseline :: "string option"

definition hg_prefix :: "bisector \<Rightarrow> string list" where
  "hg_prefix self = [''hg'', ''-R'', repo_dir self]"

subsection \<open>establish_baseline\<close>

definition establish_baseline ::
  "env \<Rightarrow> bisector \<Rightarrow> string \<Rightarrow> string \<Rightarrow> world \<Rightarrow> (error + bool) \<times> bisector \<times> world" where
  "establish_baseline e self start end' w =
     (case check_call e (hg_prefix self @ [''update'', ''-r'', end']) w of
        (Inl err, w1) \<Rightarrow> (Inl err, self, w1)
      | (Inr _, w1) \<Rightarrow>
          (let self1 = self\<lparr>baseline := evaluate_testcase e end'\<rparr>
           in if baseline self1 = None \<or> baseline self1 = Some ''skip''
              then (Inr False, self1, w1)
              else (case check_call e (hg_prefix self1 @ [''update'', ''-r'', start]) w1 of
                      (Inl err, w2) \<Rightarrow> (Inl err, self1, w2)
                    | (Inr _, w2) \<Rightarrow>
                        (let start_result = evaluate_testcase e start
                         in if start_result = None then (Inr True, self1, w2)
                            else (Inr False, self1, w2)))))"

text \<open>
  How \<open>establish_baseline\<close> reads a result of \<open>evaluate_testcase\<close>, after its two
  comments (the end revision must crash, the start revision must not): \<^verbatim>\<open>None\<close> is a
  revision that does not reproduce, \<^verbatim>\<open>"skip"\<close> one that could not be judged, and any
  other value is the crash that became the baseline.
\<close>

datatype classification = GOOD | BAD | SKIP

definition classify :: "string option \<Rightarrow> classification" where
  "classify r =
     (case r of None \<Rightarrow> GOOD | Some s \<Rightarrow> if s = ''skip'' then SKIP else BAD)"

subsection \<open>The search loop of bisect\<close>

record loop_state =
  labels :: "string \<rightharpoonup> label"
  iter_count :: nat
  skip_count :: nat
  blame :: "string option"
  current_rev :: "string option"

definition init_loop_state :: "string option \<Rightarrow> loop_state" where
  "init_loop_state b =
     \<lparr>labels = Map.empty, iter_count = 1, skip_count = 0, blame = None, current_rev = b\<rparr>"

text \<open>
  One pass through the body of \<^verbatim>\<open>while current_rev is not None\<close>. The first component
  is \<open>True\<close> when the body left through \<^verbatim>\<open>break\<close>. The call of \<^verbatim>\<open>bisectLabel\<close> stands
  inside a string literal in the source, so the body assigns neither \<^verbatim>\<open>current_rev\<close>
  nor \<^verbatim>\<open>blame\<close>, and nothing reads \<^verbatim>\<open>iter_count\<close> or \<open>MAX_ITERATIONS\<close>.
\<close>

definition loop_body :: "env \<Rightarrow> string \<Rightarrow> loop_state \<Rightarrow> world \<Rightarrow> bool \<times> loop_state \<times> world" where
  "loop_body e cur st w =
     (let (label, w1) = call_evaluator e cur w;
          st1 = st\<lparr>labels := (labels st)(cur \<mapsto> label)\<rparr>
      in if fst label = ''skip''
         then (let st2 = st1\<lparr>skip_count := skip_count st1 + 1\<rparr>
               in if 20 < skip_count st2 then (True, st2, w1)
                  else (False, st2\<lparr>iter_count := iter_count st2 + 1\<rparr>, w1))
         else (False, st1\<lparr>iter_count := iter_count st1 + 1\<rparr>, w1))"

datatype loop_exit = Converged | Aborted | OutOfFuel

text \<open>
  The loop, with fuel: \<open>Converged\<close> when the loop condition is false, \<open>Aborted\<close> after
  \<^verbatim>\<open>break\<close>, \<open>OutOfFuel\<close> when the loop is still running after as many passes as the
  fuel allows (the state is then the one at the head of the next pass).
\<close>

fun bisect_loop :: "nat \<Rightarrow> env \<Rightarrow> loop_state \<Rightarrow> world \<Rightarrow> loop_exit \<times> loop_state \<times> world" where
  "bisect_loop 0 e st w =
     (case current_rev st of None \<Rightarrow> (Converged, st, w) | Some cur \<Rightarrow> (OutOfFuel, st, w))"
| "bisect_loop (Suc n) e st w =
     (case current_rev st of
        None \<Rightarrow> (Converged, st, w)
      | Some cur \<Rightarrow>
          (case loop_body e cur st w of
             (True, st', w') \<Rightarrow> (Aborted, st', w')
           | (False, st', w') \<Rightarrow> bisect_loop n e st' w'))"

text \<open>The number of the evaluator's answers, from call \<open>k\<close> on for \<open>n\<close> calls, that are skips.\<close>

definition skips_among :: "env \<Rightarrow> string \<Rightarrow> nat \<Rightarrow> nat \<Rightarrow> nat" where
  "skips_among e cur k n = length (filter (\<lambda>i. fst (evaluator e i cur) = ''skip'') [k ..< k + n])"

subsection \<open>bisect\<close>

text \<open>
  After the loop, \<open>bisect\<close> reads \<^verbatim>\<open>blamedRev\<close>, a name no statement of the function or
  of the module binds; so are \<^verbatim>\<open>checkBlameParents\<close> (a method, called without \<^verbatim>\<open>self\<close>),
  \<^verbatim>\<open>blamedGoodOrBad\<close>, \<^verbatim>\<open>realStartRepo\<close> and \<^verbatim>\<open>realEndRepo\<close>. Reading an unbound name
  raises \<^verbatim>\<open>NameError\<close>.
\<close>

definition unbound_name :: "string \<Rightarrow> error + string option" where
  "unbound_name n = Inl (NameError n)"

text \<open>Lines 123 to 128 of \<open>bisect\<close>: reset the bisect state, restore the working copy.\<close>

definition cleanup :: "env \<Rightarrow> bisector \<Rightarrow> world \<Rightarrow> (error + unit) \<times> world" where
  "cleanup e self w =
     (case check_call e (hg_prefix self @ [''bisect'', ''-U'', ''-r'']) w of
        (Inl err, w1) \<Rightarrow> (Inl err, w1)
      | (Inr _, w1) \<Rightarrow>
          (let (out, w2) = captureStdout e (hg_prefix self @ [''update'', ''-C'', ''-r'', ''default'']) w1
           in (Inr (), destroyPyc (repo_dir self) w2)))"

definition after_loop :: "env \<Rightarrow> bisector \<Rightarrow> world \<Rightarrow> (error + unit) \<times> world" where
  "after_loop e self w =
     (case unbound_name ''blamedRev'' of
        Inl err \<Rightarrow> (Inl err, w)
      | Inr blamedRev \<Rightarrow>
          (case (if blamedRev \<noteq> None then unbound_name ''checkBlameParents'' else Inr None) of
             Inl err \<Rightarrow> (Inl err, w)
           | Inr _ \<Rightarrow> cleanup e self w))"

text \<open>
  \<open>bisect\<close> returns \<open>None\<close> when the search loop is still running after \<open>fuel\<close> passes;
  otherwise the exception it raised or \<open>()\<close> for Python's \<^verbatim>\<open>None\<close>, and the world it left.
\<close>

definition bisect :: "nat \<Rightarrow> env \<Rightarrow> bisector \<Rightarrow> world \<Rightarrow> ((error + unit) \<times> world) option" where
  "bisect fuel e self w =
     (case check_call e (hg_prefix self @ [''update'', ''-C'', ''default'']) w of
        (Inl err, w1) \<Rightarrow> Some (Inl err, w1)
      | (Inr _, w1) \<Rightarrow>
     (case check_call e (hg_prefix self @ [''purge'', ''--all'']) w1 of
        (Inl err, w2) \<Rightarrow> Some (Inl err, w2)
      | (Inr _, w2) \<Rightarrow>
     (case getRepoHashAndId e (repo_dir self) (start_rev self) of
        Inl err \<Rightarrow> Some (Inl err, w2)
      | Inr start_rev' \<Rightarrow>
     (case getRepoHashAndId e (repo_dir self) (end_rev self) of
        Inl err \<Rightarrow> Some (Inl err, w2)
      | Inr end_rev' \<Rightarrow>
     (case establish_baseline e self start_rev' end_rev' w2 of
        (Inl err, self1, w3) \<Rightarrow> Some (Inl err, w3)
      | (Inr False, self1, w3) \<Rightarrow> Some (Inr (), w3)
      | (Inr True, self1, w3) \<Rightarrow>
     (let (out, w4) = captureStdout e (hg_prefix self1 @ [''bisect'', ''-r'']) w3
      in
     (case (case skip_revs self1 of
              None \<Rightarrow> (Inr (), w4)
            | Some revs \<Rightarrow>
                if revs \<noteq> [] then check_call e (hg_prefix self1 @ [''bisect'', ''--skip'', revs]) w4
                else (Inr (), w4)) of
        (Inl err, w5) \<Rightarrow> Some (Inl err, w5)
      | (Inr _, w5) \<Rightarrow>
     (case bisect_loop fuel e (init_loop_state (baseline self1)) w5 of
        (OutOfFuel, st, w6) \<Rightarrow> None
      | (ex, st, w6) \<Rightarrow> Some (after_loop e self1 w6)))))))))"

subsection \<open>bisectLabel\<close>

record options =
  testInitialRevs :: bool
  buildOptions :: "string option"
  browserOptions :: string

text \<open>
  \<open>buildOptions\<close> and \<open>browserOptions\<close> stand for the repository directory each of the
  two option objects carries. The two regular expressions are literal but for the
  alternative \<^verbatim>\<open>(good|bad)\<close>, and \<^verbatim>\<open>match\<close> anchors them at the start of the line.
\<close>

definition match_could_be_any :: "string \<Rightarrow> bool" where
  "match_could_be_any line =
     (prefix ''Due to skipped revisions, the first good revision could be any of:'' line
      \<or> prefix ''Due to skipped revisions, the first bad revision could be any of:'' line)"

definition match_first_is :: "string \<Rightarrow> string option" where
  "match_first_is line =
     (if prefix ''The first good revision is:'' line then Some ''good''
      else if prefix ''The first bad revision is:'' line then Some ''bad''
      else None)"

type_synonym bisect_reply = "string option \<times> string option \<times> string option \<times> string \<times> string"

definition bisectLabel ::
  "env \<Rightarrow> string list \<Rightarrow> options \<Rightarrow> string \<Rightarrow> string \<Rightarrow> string \<Rightarrow> string \<Rightarrow> world
     \<Rightarrow> (error + bisect_reply) \<times> world" where
  "bisectLabel e hgPrefix opts hgLabel currRev startRepo endRepo w =
     (if hgLabel \<notin> {''good'', ''bad'', ''skip''} then (Inl AssertionError, w)
      else
       (let (outputResult, w1) = captureStdout e (hgPrefix @ [''bisect'', ''-U'', ''--'' @ hgLabel, currRev]) w;
            outputLines = split_on newline outputResult;
            repoDir = (case buildOptions opts of Some d \<Rightarrow> d | None \<Rightarrow> browserOptions opts)
        in if match_could_be_any (hd outputLines)
           then (Inr (None, None, None, startRepo, endRepo), w1)
           else
            (case match_first_is (hd outputLines) of
               Some blamedGoodOrBad \<Rightarrow>
                 (case tl outputLines of
                    [] \<Rightarrow> (Inl IndexError, w1)
                  | line1 # _ \<Rightarrow>
                      (Inr (Some blamedGoodOrBad, getCsetHashFromBisectMsg line1, None,
                            startRepo, endRepo), w1))
             | None \<Rightarrow>
                 if testInitialRevs opts
                 then (Inr (None, None, None, startRepo, endRepo), w1)
                 else
                  (case getCsetHashFromBisectMsg (hd outputLines) of
                     None \<Rightarrow>
                       (case check_call e (hgPrefix @ [''update'', ''-C'', ''default'']) w1 of
                          (Inl err, w2) \<Rightarrow> (Inl err, w2)
                        | (Inr _, w2) \<Rightarrow>
                            (Inl (Exception ''hg did not suggest a changeset to test!''),
                             destroyPyc repoDir w2))
                   | Some currRev' \<Rightarrow>
                       (let start = startRepo;
                            end' = endRepo;
                            end'' = (if hgLabel = ''bad'' then currRev' else end');
                            start' = (if hgLabel = ''bad'' then start
                                      else if hgLabel = ''good'' then currRev' else start)
                        in (Inr (None, None, Some currRev', start', end''), w1))))))"

subsection \<open>checkBlameParents\<close>

record verifier_state =
  v_labels :: "string \<rightharpoonup> label"
  bisectLied :: bool
  missedCommonAncestor :: bool

definition opposite :: "string \<Rightarrow> string option" where
  "opposite = map_of [(''good'', ''bad''), (''bad'', ''good'')]"

text \<open>
  The body of \<^verbatim>\<open>for p in parents\<close>: test a parent that has no label, noting a parent
  that descends from neither end of the range; then compare the parent's label with the
  label of the blamed revision. \<^verbatim>\<open>and\<close> does not evaluate its second operand when the
  first is false.
\<close>

definition test_parent ::
  "env \<Rightarrow> string \<Rightarrow> string \<Rightarrow> string \<Rightarrow> string \<Rightarrow> verifier_state \<Rightarrow> world
     \<Rightarrow> verifier_state \<times> world" where
  "test_parent e repoDir startRepo endRepo p vs w =
     (if v_labels vs p = None
      then (let (a1, w1) = isAncestor e repoDir startRepo p w;
                (neither, w2) = (if \<not> a1
                                 then (let (a2, w') = isAncestor e repoDir endRepo p w1 in (\<not> a2, w'))
                                 else (False, w1));
                vs1 = (if neither then vs\<lparr>missedCommonAncestor := True\<rparr> else vs);
                (label, w3) = call_evaluator e p w2
            in (vs1\<lparr>v_labels := (v_labels vs1)(p \<mapsto> label)\<rparr>, w3))
      else (vs, w))"

definition compare_parent :: "string \<Rightarrow> string \<Rightarrow> verifier_state \<Rightarrow> error + verifier_state" where
  "compare_parent blamedGoodOrBad p vs =
     (case v_labels vs p of
        None \<Rightarrow> Inl (KeyError p)
      | Some l \<Rightarrow>
          if fst l = ''skip'' then Inr vs
          else if fst l = blamedGoodOrBad then Inr (vs\<lparr>bisectLied := True\<rparr>)
          else (case opposite blamedGoodOrBad of
                  None \<Rightarrow> Inl (KeyError blamedGoodOrBad)
                | Some other \<Rightarrow> if fst l = other then Inr vs else Inl AssertionError))"

fun check_parents ::
  "env \<Rightarrow> string \<Rightarrow> string \<Rightarrow> string \<Rightarrow> string \<Rightarrow> string list \<Rightarrow> verifier_state \<Rightarrow> world
     \<Rightarrow> (error + verifier_state) \<times> world" where
  "check_parents e repoDir blamedGoodOrBad startRepo endRepo [] vs w = (Inr vs, w)"
| "check_parents e repoDir blamedGoodOrBad startRepo endRepo (p # ps) vs w =
     (let (vs1, w1) = test_parent e repoDir startRepo endRepo p vs w
      in case compare_parent blamedGoodOrBad p vs1 of
           Inl err \<Rightarrow> (Inl err, w1)
         | Inr vs2 \<Rightarrow> check_parents e repoDir blamedGoodOrBad startRepo endRepo ps vs2 w1)"

text \<open>
  What the function prints at its end: nothing when the blamed revision has one parent,
  else one of the three explanations (the first with the common ancestor it names).
\<close>

datatype explanation =
    NotAMerge
  | RangeMissedParent string
  | WronglyMarked
  | IntroducedByMerge

definition checkBlameParents ::
  "env \<Rightarrow> string \<Rightarrow> string \<Rightarrow> string \<Rightarrow> (string \<rightharpoonup> label) \<Rightarrow> string \<Rightarrow> string \<Rightarrow> world
     \<Rightarrow> (error + verifier_state \<times> explanation) \<times> world" where
  "checkBlameParents e repoDir blamedRev blamedGoodOrBad lbls startRepo endRepo w =
     (let vs0 = \<lparr>v_labels = lbls, bisectLied = False, missedCommonAncestor = False\<rparr>;
          (out, w1) = captureStdout e ([''hg'', ''-R'', repoDir]
                         @ [''parent'', ''--template={node|short},'', ''-r'', blamedRev]) w;
          parents = butlast (split_on CHR '','' out)
      in if length parents = 1 then (Inr (vs0, NotAMerge), w1)
         else
          (case check_parents e repoDir blamedGoodOrBad startRepo endRepo parents vs0 w1 of
             (Inl err, w2) \<Rightarrow> (Inl err, w2)
           | (Inr vs, w2) \<Rightarrow>
               if bisectLied vs
               then (if missedCommonAncestor vs
                     then (case parents of
                             p0 # p1 # _ \<Rightarrow>
                               (let (ca, w3) = findCommonAncestor e repoDir p0 p1 w2;
                                    (label, w4) = call_evaluator e ca w3
                                in (Inr (vs, RangeMissedParent ca), w4))
                           | _ \<Rightarrow> (Inl IndexError, w2))
                     else (Inr (vs, WronglyMarked), w2))
               else (Inr (vs, IntroducedByMerge), w2)))"

definition parents_of :: "env \<Rightarrow> string \<Rightarrow> string \<Rightarrow> string list" where
  "parents_of e repoDir blamedRev =
     butlast (split_on CHR '','' (hg_stdout e ([''hg'', ''-R'', repoDir]
        @ [''parent'', ''--template={node|short},'', ''-r'', blamedRev])))"

definition descends_from :: "env \<Rightarrow> string \<Rightarrow> string \<Rightarrow> string \<Rightarrow> bool" where
  "descends_from e repoDir a p =
     (hg_stdout e [''hg'', ''-R'', repoDir, ''log'', ''-r'',
                   ''ancestor('' @ a @ '','' @ p @ '')'', ''--template={node|short}''] = a)"

section \<open>Concrete runs\<close>

text \<open>
  An environment in which every Mercurial command succeeds and prints nothing, the
  revision \<open>tip\<close> reproduces the crash and every other revision does not; the evaluator
  is a parameter. \<open>example_bisector\<close> bisects from \<open>base\<close> to \<open>tip\<close>.
\<close>

definition all_ok_env :: "(nat \<Rightarrow> string \<Rightarrow> label) \<Rightarrow> env" where
  "all_ok_env ev =
     \<lparr>hg_returncode = (\<lambda>cmd. 0), hg_stdout = (\<lambda>cmd. []),
      evaluate_testcase = (\<lambda>r. if r = ''tip'' then Some ''crash'' else None),
      evaluator = ev, getRepoHashAndId = (\<lambda>d r. Inr r)\<rparr>"

definition example_bisector :: bisector where
  "example_bisector =
     \<lparr>repo_dir = ''repo'', start_rev = ''base'', end_rev = ''tip'', skip_revs = None,
      baseline = None\<rparr>"

definition both_good :: bisector where
  "both_good = example_bisector\<lparr>end_rev := ''base'', start_rev := ''older''\<rparr>"

definition fresh_world :: world where
  "fresh_world = \<lparr>events = [], evals = 0\<rparr>"

definition always_skip :: "nat \<Rightarrow> string \<Rightarrow> label" where
  "always_skip i r = (''skip'', ''no build'')"

definition always_good :: "nat \<Rightarrow> string \<Rightarrow> label" where
  "always_good i r = (''good'', ''no crash'')"

definition skip_but_second :: "nat \<Rightarrow> string \<Rightarrow> label" where
  "skip_but_second i r = (if i = 1 then (''good'', ''no crash'') else (''skip'', ''no build''))"



text \<open>
  Two answers of \<^verbatim>\<open>hg bisect\<close>: the usual request to test a changeset, and an error
  message that names no changeset.
\<close>

definition testing_env :: env where
  "testing_env = (all_ok_env always_good)
     \<lparr>hg_stdout := (\<lambda>cmd. ''Testing changeset 52121:573c5fa45cc4 (440 changesets remaining, ~8 tests)'')\<rparr>"


definition example_options :: options where
  "example_options = \<lparr>testInitialRevs = False, buildOptions = Some ''repo'', browserOptions = []\<rparr>"

lemma all_ok_env_simps:
  "hg_returncode (all_ok_env ev) cmd = 0"
  "hg_stdout (all_ok_env ev) cmd = []"
  "evaluate_testcase (all_ok_env ev) r = (if r = ''tip'' then Some ''crash'' else None)"
  "evaluator (all_ok_env ev) = ev"
  "getRepoHashAndId (all_ok_env ev) d r = Inr r"
  by (simp_all add: all_ok_env_def)

section \<open>Baseline establishment\<close>

lemma classify_simps:
  "classify r = GOOD \<longleftrightarrow> r = None"
  "classify r = SKIP \<longleftrightarrow> r = Some ''skip''"
  "classify r = BAD \<longleftrightarrow> (r \<noteq> None \<and> r \<noteq> Some ''skip'')"
  by (auto simp: classify_def split: option.splits)

lemma establish_baseline_True:
  "fst (establish_baseline e self start end' w) = Inr True \<longleftrightarrow>
     hg_returncode e (hg_prefix self @ [''update'', ''-r'', end']) = 0
     \<and> hg_returncode e (hg_prefix self @ [''update'', ''-r'', start]) = 0
     \<and> classify (evaluate_testcase e end') = BAD
     \<and> classify (evaluate_testcase e start) = GOOD"
  by (auto simp: establish_baseline_def check_call_def Let_def classify_simps hg_prefix_def
           split: prod.splits sum.splits)

lemma establish_baseline_False:
  "hg_returncode e (hg_prefix self @ [''update'', ''-r'', end']) = 0 \<Longrightarrow>
   hg_returncode e (hg_prefix self @ [''update'', ''-r'', start]) = 0 \<Longrightarrow>
   fst (establish_baseline e self start end' w) \<noteq> Inr True \<Longrightarrow>
   fst (establish_baseline e self start end' w) = Inr False"
  by (auto simp: establish_baseline_def check_call_def Let_def hg_prefix_def
           split: prod.splits sum.splits if_splits)

lemma establish_baseline_evals:
  "evals (snd (snd (establish_baseline e self start end' w))) = evals w"
  by (auto simp: establish_baseline_def check_call_def Let_def hg_prefix_def
           split: prod.splits sum.splits)

lemma check_call_evals: "check_call e cmd w = (r, w') \<Longrightarrow> evals w' = evals w"
  by (auto simp: check_call_def Let_def split: if_splits)

lemma bisect_stops_without_baseline:
  assumes s: "getRepoHashAndId e (repo_dir self) (start_rev self) = Inr s"
      and en: "getRepoHashAndId e (repo_dir self) (end_rev self) = Inr en"
      and nb: "\<not> (classify (evaluate_testcase e en) = BAD \<and> classify (evaluate_testcase e s) = GOOD)"
  shows "\<exists>r w'. bisect fuel e self w = Some (r, w') \<and> evals w' = evals w"
proof -
  obtain r1 w1 where c1: "check_call e (hg_prefix self @ [''update'', ''-C'', ''default'']) w = (r1, w1)"
    by (cases "check_call e (hg_prefix self @ [''update'', ''-C'', ''default'']) w") auto
  obtain r2 w2 where c2: "check_call e (hg_prefix self @ [''purge'', ''--all'']) w1 = (r2, w2)"
    by (cases "check_call e (hg_prefix self @ [''purge'', ''--all'']) w1") auto
  obtain r3 self3 w3 where c3: "establish_baseline e self s en w2 = (r3, self3, w3)"
    by (cases "establish_baseline e self s en w2") auto
  have e1: "evals w1 = evals w" by (rule check_call_evals[OF c1])
  have e2: "evals w2 = evals w1" by (rule check_call_evals[OF c2])
  have e3: "evals w3 = evals w2" using establish_baseline_evals[of e self s en w2] c3 by simp
  have n3: "r3 \<noteq> Inr True" using establish_baseline_True[of e self s en w2] nb c3 by auto
  show ?thesis
    using c1 c2 c3 s en e1 e2 e3 n3
    by (cases r1; cases r2; cases r3) (auto simp: bisect_def split: bool.splits)
qed

text \<open>
  Claim C2. \<open>establish_baseline\<close> returns \<open>True\<close> only when the end revision is BAD and
  the start revision is GOOD. Whenever the two classifications are equal, or either is
  SKIP, it does not return \<open>True\<close>: it returns \<open>False\<close> when the two \<^verbatim>\<open>hg update\<close> commands
  succeed (a failing one raises \<^verbatim>\<open>CalledProcessError\<close> instead), and \<open>bisect\<close> then ends
  without one call of the evaluator, that is without entering the search loop.
\<close>

theorem baseline_needs_bad_end_and_good_start:
  "(fst (establish_baseline e self start end' w) = Inr True \<longrightarrow>
      classify (evaluate_testcase e end') = BAD \<and> classify (evaluate_testcase e start) = GOOD)
   \<and> (classify (evaluate_testcase e start) = classify (evaluate_testcase e end')
        \<or> classify (evaluate_testcase e start) = SKIP
        \<or> classify (evaluate_testcase e end') = SKIP \<longrightarrow>
      fst (establish_baseline e self start end' w) \<noteq> Inr True
      \<and> (hg_returncode e (hg_prefix self @ [''update'', ''-r'', end']) = 0
         \<and> hg_returncode e (hg_prefix self @ [''update'', ''-r'', start]) = 0 \<longrightarrow>
           fst (establish_baseline e self start end' w) = Inr False)
      \<and> (getRepoHashAndId e (repo_dir self) (start_rev self) = Inr start
         \<and> getRepoHashAndId e (repo_dir self) (end_rev self) = Inr end' \<longrightarrow>
           (\<forall>fuel w0. \<exists>r w'. bisect fuel e self w0 = Some (r, w') \<and> evals w' = evals w0)))"
proof -
  have a: "fst (establish_baseline e self start end' w) = Inr True \<longrightarrow>
      classify (evaluate_testcase e end') = BAD \<and> classify (evaluate_testcase e start) = GOOD"
    by (simp add: establish_baseline_True)
  have b: "fst (establish_baseline e self start end' w) \<noteq> Inr True"
    if "classify (evaluate_testcase e start) = classify (evaluate_testcase e end')
        \<or> classify (evaluate_testcase e start) = SKIP
        \<or> classify (evaluate_testcase e end') = SKIP"
    using that by (auto simp: establish_baseline_True)
  have c: "\<not> (classify (evaluate_testcase e end') = BAD \<and> classify (evaluate_testcase e start) = GOOD)"
    if "classify (evaluate_testcase e start) = classify (evaluate_testcase e end')
        \<or> classify (evaluate_testcase e start) = SKIP
        \<or> classify (evaluate_testcase e end') = SKIP"
    using that by auto
  show ?thesis
    using a b c establish_baseline_False[of e self end' start w]
          bisect_stops_without_baseline[of e self start end']
    by blast
qed

theorem baseline_needs_bad_end_and_good_start_witness:
  "fst (establish_baseline (all_ok_env always_good) both_good ''older'' ''base'' fresh_world)
     = Inr False
   \<and> (\<exists>r w'. bisect 5 (all_ok_env always_good) both_good fresh_world = Some (r, w')
         \<and> evals w' = 0)"
  using baseline_needs_bad_end_and_good_start
          [of "all_ok_env always_good" both_good "''older''" "''base''" fresh_world]
  by (force simp: all_ok_env_simps classify_def hg_prefix_def example_bisector_def both_good_def
        fresh_world_def)

section \<open>The search loop\<close>

lemma skips_among_0: "skips_among e cur k 0 = 0"
  by (simp add: skips_among_def)

lemma skips_among_Suc:
  "skips_among e cur k (Suc n) =
     (if fst (evaluator e k cur) = ''skip'' then 1 else 0) + skips_among e cur (Suc k) n"
proof -
  have "[k..<k + Suc n] = k # [Suc k..<Suc k + n]"
    by (simp add: upt_conv_Cons del: upt_Suc)
  then show ?thesis by (simp add: skips_among_def del: upt_Suc)
qed

lemma loop_body_facts:
  assumes "loop_body e cur st w = (b, st', w')"
  shows "skip_count st' = skip_count st + (if fst (evaluator e (evals w) cur) = ''skip'' then 1 else 0)"
    and "evals w' = Suc (evals w)"
    and "current_rev st' = current_rev st"
    and "b \<longleftrightarrow> fst (evaluator e (evals w) cur) = ''skip'' \<and> 20 < skip_count st'"
    and "iter_count st' = (if b then iter_count st else iter_count st + 1)"
  using assms
  by (auto simp: loop_body_def call_evaluator_def Let_def split: if_splits prod.splits)

lemma bisect_loop_inv:
  assumes "current_rev st = Some cur" and "skip_count st \<le> 20"
      and "bisect_loop n e st w = (ex, st', w')"
  shows "skip_count st' = skip_count st + skips_among e cur (evals w) (evals w' - evals w)
         \<and> evals w \<le> evals w'
         \<and> (ex = Aborted \<longleftrightarrow> 20 < skip_count st')
         \<and> ex \<noteq> Converged
         \<and> (ex = OutOfFuel \<longrightarrow> evals w' = evals w + n \<and> iter_count st' = iter_count st + n)"
  using assms
proof (induction n arbitrary: st w)
  case 0
  then show ?case by (auto simp: skips_among_0)
next
  case (Suc n)
  obtain b st1 w1 where body: "loop_body e cur st w = (b, st1, w1)"
    by (cases "loop_body e cur st w") auto
  note f = loop_body_facts[OF body]
  show ?case
  proof (cases b)
    case True
    with Suc.prems body have "ex = Aborted" "st' = st1" "w' = w1" by auto
    with f True Suc.prems show ?thesis
      by (auto simp: skips_among_Suc skips_among_0)
  next
    case False
    with Suc.prems body have run: "bisect_loop n e st1 w1 = (ex, st', w')" by auto
    from False f Suc.prems have le: "skip_count st1 \<le> 20"
      by (auto split: if_splits)
    from f Suc.prems have cur: "current_rev st1 = Some cur" by simp
    from Suc.IH[OF cur le run] f False
    have "evals w' - evals w = Suc (evals w' - evals w1)" by auto
    with Suc.IH[OF cur le run] f False show ?thesis
      by (auto simp: skips_among_Suc)
  qed
qed

lemma never_aborts_without_skips:
  assumes "\<forall>i. fst (evaluator e i cur) \<noteq> ''skip''"
  shows "\<exists>st w'. bisect_loop n e (init_loop_state (Some cur)) w = (OutOfFuel, st, w')
          \<and> iter_count st = 1 + n"
proof -
  obtain ex st w' where r: "bisect_loop n e (init_loop_state (Some cur)) w = (ex, st, w')"
    by (cases "bisect_loop n e (init_loop_state (Some cur)) w") auto
  have a: "current_rev (init_loop_state (Some cur)) = Some cur"
    and b: "skip_count (init_loop_state (Some cur)) \<le> 20"
    by (simp_all add: init_loop_state_def)
  have z: "skips_among e cur k m = 0" for k m
    using assms by (simp add: skips_among_def)
  from bisect_loop_inv[OF a b r] z have "ex = OutOfFuel"
    by (cases ex) (auto simp: init_loop_state_def)
  with bisect_loop_inv[OF a b r] r show ?thesis
    by (auto simp: init_loop_state_def)
qed

lemma run_skip_but_second:
  "bisect_loop 3 (all_ok_env skip_but_second) (init_loop_state (Some ''crash'')) fresh_world
     = (OutOfFuel,
        \<lparr>labels = [''crash'' \<mapsto> (''skip'', ''no build'')], iter_count = 4, skip_count = 2,
         blame = None, current_rev = Some ''crash''\<rparr>,
        \<lparr>events = replicate 3 (Evaluate ''crash''), evals = 3\<rparr>)"
  by (simp add: all_ok_env_simps skip_but_second_def fresh_world_def init_loop_state_def
        loop_body_def call_evaluator_def Let_def eval_nat_numeral)

section \<open>After the loop\<close>

lemma after_loop_raises: "after_loop e self w = (Inl (NameError ''blamedRev''), w)"
  by (simp add: after_loop_def unbound_name_def)

text \<open>
  Claim C8 (the cleanup phase is reached on every exit path) does not hold of the code.
  With a baseline and an evaluator that answers \<open>skip\<close> every time, the loop leaves
  through \<^verbatim>\<open>break\<close> at the 21st skip; the next statement reads the unbound name
  \<^verbatim>\<open>blamedRev\<close>, and \<open>bisect\<close> ends with \<^verbatim>\<open>NameError\<close>. The events of the run are the
  two commands that purge the repository, the two updates of the baseline, the reset of
  the bisect state and the 21 evaluations: neither \<^verbatim>\<open>hg bisect -U -r\<close> nor
  \<^verbatim>\<open>hg update -C -r default\<close> nor \<open>destroyPyc\<close> is among them. The statements after the
  loop raise in every environment, so the cleanup that follows them never runs.
\<close>

theorem cleanup_not_reached_after_skip_limit:
  "bisect 21 (all_ok_env always_skip) example_bisector fresh_world
     = Some (Inl (NameError ''blamedRev''),
         \<lparr>events =
            [Hg [''hg'', ''-R'', ''repo'', ''update'', ''-C'', ''default''],
             Hg [''hg'', ''-R'', ''repo'', ''purge'', ''--all''],
             Hg [''hg'', ''-R'', ''repo'', ''update'', ''-r'', ''tip''],
             Hg [''hg'', ''-R'', ''repo'', ''update'', ''-r'', ''base''],
             Hg [''hg'', ''-R'', ''repo'', ''bisect'', ''-r'']]
            @ replicate 21 (Evaluate ''crash''),
          evals = 21\<rparr>)
   \<and> (\<forall>e self w. after_loop e self w = (Inl (NameError ''blamedRev''), w))"
  by (simp add: bisect_def establish_baseline_def check_call_def captureStdout_def
        all_ok_env_simps example_bisector_def fresh_world_def hg_prefix_def Let_def
        init_loop_state_def loop_body_def call_evaluator_def after_loop_raises
        always_skip_def eval_nat_numeral)

theorem cleanup_not_reached_after_skip_limit_witness:
  "(\<exists>r w. bisect 21 (all_ok_env always_skip) example_bisector fresh_world = Some (r, w)
      \<and> DestroyPyc ''repo'' \<notin> set (events w)
      \<and> Hg [''hg'', ''-R'', ''repo'', ''bisect'', ''-U'', ''-r''] \<notin> set (events w)
      \<and> Hg [''hg'', ''-R'', ''repo'', ''update'', ''-C'', ''-r'', ''default''] \<notin> set (events w))"
  using cleanup_not_reached_after_skip_limit by simp

section \<open>The skip limit\<close>

lemma captureStdout_evals: "captureStdout e cmd w = (out, w') \<Longrightarrow> evals w' = evals w"
  by (auto simp: captureStdout_def)

lemma bisect_after_loop_NameError:
  assumes "bisect fuel e self w = Some (r, w')" and "evals w' \<noteq> evals w"
  shows "r = Inl (NameError ''blamedRev'')"
proof -
  obtain r1 w1 where c1: "check_call e (hg_prefix self @ [''update'', ''-C'', ''default'']) w = (r1, w1)"
    by (cases "check_call e (hg_prefix self @ [''update'', ''-C'', ''default'']) w") auto
  obtain r2 w2 where c2: "check_call e (hg_prefix self @ [''purge'', ''--all'']) w1 = (r2, w2)"
    by (cases "check_call e (hg_prefix self @ [''purge'', ''--all'']) w1") auto
  have e1: "evals w1 = evals w" by (rule check_call_evals[OF c1])
  have e2: "evals w2 = evals w" using check_call_evals[OF c2] e1 by simp
  show ?thesis
  proof (cases r1)
    case (Inl a)
    with assms c1 e1 show ?thesis by (simp add: bisect_def)
  next
    case r1: (Inr u1)
    show ?thesis
    proof (cases r2)
      case (Inl a)
      with assms c1 c2 r1 e2 show ?thesis by (simp add: bisect_def)
    next
      case r2: (Inr u2)
      show ?thesis
      proof (cases "getRepoHashAndId e (repo_dir self) (start_rev self)")
        case (Inl a)
        with assms c1 c2 r1 r2 e2 show ?thesis by (simp add: bisect_def)
      next
        case s: (Inr s)
        show ?thesis
        proof (cases "getRepoHashAndId e (repo_dir self) (end_rev self)")
          case (Inl a)
          with assms c1 c2 r1 r2 s e2 show ?thesis by (simp add: bisect_def)
        next
          case en: (Inr en)
          obtain r3 self3 w3 where c3: "establish_baseline e self s en w2 = (r3, self3, w3)"
            by (cases "establish_baseline e self s en w2") auto
          have e3: "evals w3 = evals w"
            using establish_baseline_evals[of e self s en w2] c3 e2 by simp
          show ?thesis
          proof (cases "r3 = Inr True")
            case False
            with assms c1 c2 r1 r2 s en c3 e3 show ?thesis
              by (cases r3) (auto simp: bisect_def split: bool.splits)
          next
            case True
            with assms c1 c2 r1 r2 s en c3 e3 show ?thesis
              by (auto simp: bisect_def after_loop_raises check_call_def captureStdout_def Let_def
                       split: prod.splits sum.splits option.splits if_splits loop_exit.splits)
          qed
        qed
      qed
    qed
  qed
qed

lemma run_twenty_skips:
  "fst (bisect_loop 20 (all_ok_env always_skip) (init_loop_state (Some ''crash'')) fresh_world)
     = OutOfFuel"
  by (simp add: all_ok_env_simps always_skip_def fresh_world_def init_loop_state_def
        loop_body_def call_evaluator_def Let_def eval_nat_numeral)

lemma run_twenty_one_skips:
  "bisect_loop 21 (all_ok_env always_skip) (init_loop_state (Some ''crash'')) fresh_world
     = (Aborted,
        \<lparr>labels = [''crash'' \<mapsto> (''skip'', ''no build'')], iter_count = 21, skip_count = 21,
         blame = None, current_rev = Some ''crash''\<rparr>,
        \<lparr>events = replicate 21 (Evaluate ''crash''), evals = 21\<rparr>)"
  by (simp add: all_ok_env_simps always_skip_def fresh_world_def init_loop_state_def
        loop_body_def call_evaluator_def Let_def eval_nat_numeral)

lemma bisect_twenty_one_skips:
  "\<exists>w'. bisect 21 (all_ok_env always_skip) example_bisector fresh_world
           = Some (Inl (NameError ''blamedRev''), w') \<and> evals w' = 21"
  by (simp add: bisect_def establish_baseline_def check_call_def captureStdout_def
        all_ok_env_simps example_bisector_def fresh_world_def hg_prefix_def Let_def
        init_loop_state_def loop_body_def call_evaluator_def after_loop_raises
        always_skip_def eval_nat_numeral)

text \<open>
  Claim C1 (the skip counter, and an abort with an inconclusive result if and only if the
  counter exceeds 20) holds of the counter and fails of the result. One pass of the loop
  body adds exactly 1 to the skip counter when the evaluator's label is \<open>skip\<close> and 0
  otherwise; run from the initial state, the counter is the number of \<open>skip\<close> labels among
  the evaluator calls made so far, and the loop has left through \<^verbatim>\<open>break\<close> if and only if
  the counter exceeds 20. But no result is produced: every run of \<open>bisect\<close> that called the
  evaluator and ended has raised \<^verbatim>\<open>NameError\<close>, since the statement after the loop reads the
  unbound name \<^verbatim>\<open>blamedRev\<close>. With an evaluator that answers \<open>skip\<close> every time the loop
  is still running after 20 passes, leaves at the 21st with the counter at 21, and \<open>bisect\<close>
  ends in \<^verbatim>\<open>NameError\<close>.
\<close>

theorem skip_limit_abort_raises_NameError:
  "(\<forall>st w b st' w'. loop_body e cur st w = (b, st', w') \<longrightarrow>
       skip_count st' = skip_count st + (if fst (evaluator e (evals w) cur) = ''skip'' then 1 else 0))
   \<and> (\<forall>n w ex st' w'. bisect_loop n e (init_loop_state (Some cur)) w = (ex, st', w') \<longrightarrow>
         skip_count st' = skips_among e cur (evals w) (evals w' - evals w)
         \<and> (ex = Aborted \<longleftrightarrow> 20 < skip_count st')
         \<and> (ex = OutOfFuel \<longrightarrow> evals w' - evals w = n))
   \<and> (\<forall>fuel self w r w'. bisect fuel e self w = Some (r, w') \<and> evals w' \<noteq> evals w \<longrightarrow>
         r = Inl (NameError ''blamedRev''))
   \<and> fst (bisect_loop 20 (all_ok_env always_skip) (init_loop_state (Some ''crash'')) fresh_world)
       = OutOfFuel
   \<and> (\<exists>st w'. bisect_loop 21 (all_ok_env always_skip) (init_loop_state (Some ''crash'')) fresh_world
         = (Aborted, st, w') \<and> skip_count st = 21)
   \<and> (\<exists>w'. bisect 21 (all_ok_env always_skip) example_bisector fresh_world
         = Some (Inl (NameError ''blamedRev''), w'))"
proof -
  have a: "current_rev (init_loop_state (Some cur)) = Some cur"
    and b: "skip_count (init_loop_state (Some cur)) \<le> 20"
    and c: "skip_count (init_loop_state (Some cur)) = 0"
    by (simp_all add: init_loop_state_def)
  have 1: "\<forall>st w b st' w'. loop_body e cur st w = (b, st', w') \<longrightarrow>
       skip_count st' = skip_count st + (if fst (evaluator e (evals w) cur) = ''skip'' then 1 else 0)"
    using loop_body_facts(1) by blast
  have 2: "\<forall>n w ex st' w'. bisect_loop n e (init_loop_state (Some cur)) w = (ex, st', w') \<longrightarrow>
         skip_count st' = skips_among e cur (evals w) (evals w' - evals w)
         \<and> (ex = Aborted \<longleftrightarrow> 20 < skip_count st')
         \<and> (ex = OutOfFuel \<longrightarrow> evals w' - evals w = n)"
    using bisect_loop_inv[OF a b] c by (intro allI impI) fastforce
  have 3: "\<forall>fuel self w r w'. bisect fuel e self w = Some (r, w') \<and> evals w' \<noteq> evals w \<longrightarrow>
         r = Inl (NameError ''blamedRev'')"
    using bisect_after_loop_NameError by blast
  have 5: "\<exists>st w'. bisect_loop 21 (all_ok_env always_skip) (init_loop_state (Some ''crash'')) fresh_world
         = (Aborted, st, w') \<and> skip_count st = 21"
    using run_twenty_one_skips by simp
  have 6: "\<exists>w'. bisect 21 (all_ok_env always_skip) example_bisector fresh_world
         = Some (Inl (NameError ''blamedRev''), w')"
    using bisect_twenty_one_skips by blast
  from 1 2 3 run_twenty_skips 5 6 show ?thesis by blast
qed

text \<open>
  Two runs: the second of three calls answers \<open>good\<close> and the other two \<open>skip\<close> (the loop
  runs on with the counter at 2); every call answers \<open>skip\<close> (the loop leaves at 21, and
  \<open>bisect\<close> raises).
\<close>

theorem skip_limit_abort_raises_NameError_witness:
  "skips_among (all_ok_env skip_but_second) ''crash'' 0 3 = 2
   \<and> fst (bisect_loop 3 (all_ok_env skip_but_second) (init_loop_state (Some ''crash'')) fresh_world)
       \<noteq> Aborted
   \<and> skips_among (all_ok_env always_skip) ''crash'' 0 21 = 21
   \<and> fst (bisect_loop 21 (all_ok_env always_skip) (init_loop_state (Some ''crash'')) fresh_world)
       = Aborted
   \<and> (\<exists>w'. bisect 21 (all_ok_env always_skip) example_bisector fresh_world
         = Some (Inl (NameError ''blamedRev''), w'))"
proof -
  note t1 = skip_limit_abort_raises_NameError[of "all_ok_env skip_but_second" "''crash''",
             THEN conjunct2, THEN conjunct1, rule_format, OF run_skip_but_second]
  note t2 = skip_limit_abort_raises_NameError[of "all_ok_env always_skip" "''crash''",
             THEN conjunct2, THEN conjunct1, rule_format, OF run_twenty_one_skips]
  obtain r w' where rw: "bisect 21 (all_ok_env always_skip) example_bisector fresh_world = Some (r, w')"
      "evals w' = 21"
    using bisect_twenty_one_skips by blast
  then have "evals w' \<noteq> evals fresh_world" by (simp add: fresh_world_def)
  with skip_limit_abort_raises_NameError[of "all_ok_env always_skip" "''crash''",
         THEN conjunct2, THEN conjunct2, THEN conjunct1, rule_format, of 21 example_bisector fresh_world r w'] rw
  have "r = Inl (NameError ''blamedRev'')" by blast
  with t1 t2 rw run_skip_but_second run_twenty_one_skips show ?thesis
    by (simp add: fresh_world_def)
qed

section \<open>The iteration count\<close>

lemma bisect_diverges_without_skips:
  assumes "\<forall>i r. fst (ev i r) \<noteq> ''skip''"
  shows "bisect n (all_ok_env ev) example_bisector fresh_world = None"
proof -
  let ?w = "\<lparr>events =
            [Hg [''hg'', ''-R'', ''repo'', ''update'', ''-C'', ''default''],
             Hg [''hg'', ''-R'', ''repo'', ''purge'', ''--all''],
             Hg [''hg'', ''-R'', ''repo'', ''update'', ''-r'', ''tip''],
             Hg [''hg'', ''-R'', ''repo'', ''update'', ''-r'', ''base''],
             Hg [''hg'', ''-R'', ''repo'', ''bisect'', ''-r'']], evals = 0\<rparr>"
  from assms have "\<forall>i. fst (evaluator (all_ok_env ev) i ''crash'') \<noteq> ''skip''"
    by (simp add: all_ok_env_simps)
  from never_aborts_without_skips[OF this, of n ?w]
  obtain st w' where "bisect_loop n (all_ok_env ev) (init_loop_state (Some ''crash'')) ?w = (OutOfFuel, st, w')"
    by blast
  then show ?thesis
    by (simp add: bisect_def establish_baseline_def check_call_def captureStdout_def
        all_ok_env_simps example_bisector_def fresh_world_def hg_prefix_def Let_def)
qed

text \<open>
  Claim C3 (at most 100 iterations, a fatal abort beyond) does not hold of the code:
  \<open>MAX_ITERATIONS\<close> is defined and \<^verbatim>\<open>iter_count\<close> is counted, but nothing compares them.
  With an evaluator that answers \<open>good\<close> every time, the loop is still running after any
  number of passes, with \<^verbatim>\<open>iter_count\<close> one more than the passes made (151 after 150
  passes), and \<open>bisect\<close> does not return, with an exception or without, whatever the fuel.
\<close>

theorem iteration_cap_not_enforced:
  "(\<forall>n. \<exists>st w'. bisect_loop n (all_ok_env always_good) (init_loop_state (Some ''crash'')) fresh_world
            = (OutOfFuel, st, w') \<and> iter_count st = 1 + n)
   \<and> (\<exists>st w'. bisect_loop 150 (all_ok_env always_good) (init_loop_state (Some ''crash'')) fresh_world
            = (OutOfFuel, st, w') \<and> MAX_ITERATIONS < iter_count st)
   \<and> (\<forall>n. bisect n (all_ok_env always_good) example_bisector fresh_world = None)"
proof -
  have ns: "\<forall>i. fst (evaluator (all_ok_env always_good) i ''crash'') \<noteq> ''skip''"
    by (simp add: all_ok_env_simps always_good_def)
  have a: "\<exists>st w'. bisect_loop n (all_ok_env always_good) (init_loop_state (Some ''crash'')) fresh_world
            = (OutOfFuel, st, w') \<and> iter_count st = 1 + n" for n
    by (rule never_aborts_without_skips[OF ns])
  have b: "\<exists>st w'. bisect_loop 150 (all_ok_env always_good) (init_loop_state (Some ''crash'')) fresh_world
            = (OutOfFuel, st, w') \<and> MAX_ITERATIONS < iter_count st"
    using a[of 150] by (auto simp: MAX_ITERATIONS_def)
  have c: "bisect n (all_ok_env always_good) example_bisector fresh_world = None" for n
    by (rule bisect_diverges_without_skips) (simp add: always_good_def)
  from a b c show ?thesis by blast
qed

theorem iteration_cap_not_enforced_witness:
  "bisect 1000 (all_ok_env always_good) example_bisector fresh_world = None
   \<and> fst (bisect_loop 101 (all_ok_env always_good) (init_loop_state (Some ''crash'')) fresh_world)
       = OutOfFuel"
  using iteration_cap_not_enforced by (metis fst_conv)

section \<open>The changeset hash in a line of hg bisect\<close>











lemma bisectLabel_next:
  assumes "hgLabel \<in> {''good'', ''bad'', ''skip''}"
      and "l0 = hd (split_on newline (hg_stdout e (hgPrefix @ [''bisect'', ''-U'', ''--'' @ hgLabel, currRev])))"
      and "\<not> match_could_be_any l0" and "match_first_is l0 = None" and "\<not> testInitialRevs opts"
      and "getCsetHashFromBisectMsg l0 = Some suggested"
  shows "fst (bisectLabel e hgPrefix opts hgLabel currRev startRepo endRepo w) =
           Inr (None, None, Some suggested,
                if hgLabel = ''good'' then suggested else startRepo,
                if hgLabel = ''bad'' then suggested else endRepo)"
  using assms
  by (auto simp: bisectLabel_def captureStdout_def check_call_def Let_def)







text \<open>
  Claim C4 (BAD sets the bad boundary to the candidate, GOOD the good boundary) does not
  hold of the code for the candidate that was evaluated. \<open>bisectLabel\<close> overwrites \<^verbatim>\<open>currRev\<close>
  with the changeset Mercurial asks to test next before it updates the range, so the
  boundary becomes that changeset, which has no label yet. Told that \<open>aaaaaaaaaaaa\<close> is
  bad, with Mercurial answering "Testing changeset 52121:573c5fa45cc4 ...", the function
  returns the end of the range as \<open>573c5fa45cc4\<close>; told that it is good, it returns the
  start of the range as \<open>573c5fa45cc4\<close>. The other boundary is unchanged.
\<close>

theorem bisectLabel_moves_boundary_to_next_revision:
  "bisectLabel testing_env [''hg'', ''-R'', ''repo''] example_options ''bad'' ''aaaaaaaaaaaa''
       ''base'' ''tip'' fresh_world
     = (Inr (None, None, Some ''573c5fa45cc4'', ''base'', ''573c5fa45cc4''),
        \<lparr>events = [Hg [''hg'', ''-R'', ''repo'', ''bisect'', ''-U'', ''--bad'', ''aaaaaaaaaaaa'']],
         evals = 0\<rparr>)
   \<and> bisectLabel testing_env [''hg'', ''-R'', ''repo''] example_options ''good'' ''aaaaaaaaaaaa''
       ''base'' ''tip'' fresh_world
     = (Inr (None, None, Some ''573c5fa45cc4'', ''573c5fa45cc4'', ''tip''),
        \<lparr>events = [Hg [''hg'', ''-R'', ''repo'', ''bisect'', ''-U'', ''--good'', ''aaaaaaaaaaaa'']],
         evals = 0\<rparr>)"
  by (simp add: bisectLabel_def captureStdout_def testing_env_def all_ok_env_def Let_def
        newline_def match_could_be_any_def match_first_is_def example_options_def
        getCsetHashFromBisectMsg_def token_at_def is_digit_def is_word_def fresh_world_def)

theorem bisectLabel_moves_boundary_to_next_revision_witness:
  "\<exists>r w. bisectLabel testing_env [''hg'', ''-R'', ''repo''] example_options ''bad'' ''aaaaaaaaaaaa''
       ''base'' ''tip'' fresh_world = (Inr r, w)
     \<and> snd (snd (snd (snd r))) \<noteq> ''aaaaaaaaaaaa''"
  using bisectLabel_moves_boundary_to_next_revision by simp

end
